theory Spec2Isabelle
  imports Main "HOL-Library.Char_ord" "HOL-Library.List_Lexorder"
begin

section \<open>Data model of \<open>src/app.py\<close>\<close>

text \<open>
  Strings are byte strings (the UTF-8 text SQLite stores). SQLite's default BINARY collation
  compares TEXT values bytewise, a proper prefix first; that is the lexicographic order on
  \<^typ>\<open>string\<close> given by \<open>Char_ord\<close> and \<open>List_Lexorder\<close>.

  The three columns \<open>description\<close>, \<open>schedule\<close>, \<open>max_participants\<close> occur both in a row of
  table \<open>activities\<close> (together with the key \<open>name\<close>) and in a value of the dictionary that
  \<open>fetch_activities\<close> builds and \<open>INITIAL_ACTIVITIES\<close> holds (together with \<open>participants\<close>).
\<close>

record activity_details =
  description :: string
  schedule :: string
  max_participants :: int

record activity_row = activity_details +
  name :: string

record activity_entry = activity_details +
  participants :: "string list"

record registration_row =
  activity_name :: string
  email :: string

text \<open>
  The database file. A table that has not been created yet is \<open>None\<close>; a created table is the
  list of its rows in insertion order.
\<close>

record database =
  activities :: "activity_row list option"
  registrations :: "registration_row list option"

definition fresh_store :: database where
  "fresh_store = \<lparr>activities = None, registrations = None\<rparr>"

text \<open>
  Exceptions: the \<open>HTTPException\<close> the handlers raise (status code and detail), and the two
  exceptions of \<open>sqlite3\<close> that a statement can raise (a table that does not exist, a violated
  constraint).
\<close>

datatype error = HTTPException nat string | OperationalError | IntegrityError

definition NotFound :: error where
  "NotFound = HTTPException 404 ''Activity not found''"

definition Conflict :: error where
  "Conflict = HTTPException 400 ''Student is already signed up''"

definition InvalidOperation :: error where
  "InvalidOperation = HTTPException 400 ''Student is not signed up for this activity''"

text \<open>
  The status the framework answers with: the code of a raised \<open>HTTPException\<close>, 500 for any
  other exception, 200 when the handler returns.
\<close>

fun status_code :: "error + 'a \<Rightarrow> nat" where
  "status_code (Inr _) = 200"
| "status_code (Inl (HTTPException code _)) = code"
| "status_code (Inl _) = 500"

section \<open>Seed data\<close>

text \<open>\<open>INITIAL_ACTIVITIES\<close>, a dictionary literal, in the order it is written.\<close>

definition INITIAL_ACTIVITIES :: "(string \<times> activity_entry) list" where
  "INITIAL_ACTIVITIES = [
    (''Chess Club'', \<lparr>
      description = ''Learn strategies and compete in chess tournaments'',
      schedule = ''Fridays, 3:30 PM - 5:00 PM'',
      max_participants = 12,
      participants = [''michael@mergington.edu'', ''daniel@mergington.edu'']\<rparr>),
    (''Programming Class'', \<lparr>
      description = ''Learn programming fundamentals and build software projects'',
      schedule = ''Tuesdays and Thursdays, 3:30 PM - 4:30 PM'',
      max_participants = 20,
      participants = [''emma@mergington.edu'', ''sophia@mergington.edu'']\<rparr>),
    (''Gym Class'', \<lparr>
      description = ''Physical education and sports activities'',
      schedule = ''Mondays, Wednesdays, Fridays, 2:00 PM - 3:00 PM'',
      max_participants = 30,
      participants = [''john@mergington.edu'', ''olivia@mergington.edu'']\<rparr>),
    (''Soccer Team'', \<lparr>
      description = ''Join the school soccer team and compete in matches'',
      schedule = ''Tuesdays and Thursdays, 4:00 PM - 5:30 PM'',
      max_participants = 22,
      participants = [''liam@mergington.edu'', ''noah@mergington.edu'']\<rparr>),
    (''Basketball Team'', \<lparr>
      description = ''Practice and play basketball with the school team'',
      schedule = ''Wednesdays and Fridays, 3:30 PM - 5:00 PM'',
      max_participants = 15,
      participants = [''ava@mergington.edu'', ''mia@mergington.edu'']\<rparr>),
    (''Art Club'', \<lparr>
      description = ''Explore your creativity through painting and drawing'',
      schedule = ''Thursdays, 3:30 PM - 5:00 PM'',
      max_participants = 15,
      participants = [''amelia@mergington.edu'', ''harper@mergington.edu'']\<rparr>),
    (''Drama Club'', \<lparr>
      description = ''Act, direct, and produce plays and performances'',
      schedule = ''Mondays and Wednesdays, 4:00 PM - 5:30 PM'',
      max_participants = 20,
      participants = [''ella@mergington.edu'', ''scarlett@mergington.edu'']\<rparr>),
    (''Math Club'', \<lparr>
      description = ''Solve challenging problems and participate in math competitions'',
      schedule = ''Tuesdays, 3:30 PM - 4:30 PM'',
      max_participants = 10,
      participants = [''james@mergington.edu'', ''benjamin@mergington.edu'']\<rparr>),
    (''Debate Team'', \<lparr>
      description = ''Develop public speaking and argumentation skills'',
      schedule = ''Fridays, 4:00 PM - 5:30 PM'',
      max_participants = 12,
      participants = [''charlotte@mergington.edu'', ''henry@mergington.edu'']\<rparr>)]"

section \<open>The SQL statements\<close>

text \<open>\<open>CREATE TABLE IF NOT EXISTS\<close>: an empty table when there is none, nothing otherwise.\<close>

definition create_activities :: "database \<Rightarrow> database" where
  "create_activities db =
     (case activities db of None \<Rightarrow> db\<lparr>activities := Some []\<rparr> | Some _ \<Rightarrow> db)"

definition create_registrations :: "database \<Rightarrow> database" where
  "create_registrations db =
     (case registrations db of None \<Rightarrow> db\<lparr>registrations := Some []\<rparr> | Some _ \<Rightarrow> db)"

text \<open>\<open>SELECT COUNT(*) AS count FROM activities\<close>\<close>

definition count_activities :: "database \<Rightarrow> error + nat" where
  "count_activities db =
     (case activities db of None \<Rightarrow> Inl OperationalError | Some rows \<Rightarrow> Inr (length rows))"

text \<open>
  \<open>INSERT INTO activities\<close>: refused when the primary key \<open>name\<close> is taken or the
  \<open>CHECK(max_participants > 0)\<close> fails.
\<close>

definition insert_activity :: "activity_row \<Rightarrow> database \<Rightarrow> error + database" where
  "insert_activity row db =
     (case activities db of
        None \<Rightarrow> Inl OperationalError
      | Some rows \<Rightarrow>
          if name row \<in> set (map name rows) then Inl IntegrityError
          else if \<not> 0 < max_participants row then Inl IntegrityError
          else Inr (db\<lparr>activities := Some (rows @ [row])\<rparr>))"

text \<open>
  \<open>INSERT INTO registrations\<close>: refused when the primary key \<open>(activity_name, email)\<close> is taken
  or, foreign keys being switched on by \<open>get_connection\<close>, when \<open>activity_name\<close> names no
  activity.
\<close>

definition insert_registration :: "string \<Rightarrow> string \<Rightarrow> database \<Rightarrow> error + database" where
  "insert_registration a e db =
     (case registrations db of
        None \<Rightarrow> Inl OperationalError
      | Some regs \<Rightarrow>
          (case activities db of
             None \<Rightarrow> Inl OperationalError
           | Some rows \<Rightarrow>
               if \<lparr>activity_name = a, email = e\<rparr> \<in> set regs then Inl IntegrityError
               else if a \<notin> set (map name rows) then Inl IntegrityError
               else Inr (db\<lparr>registrations := Some (regs @ [\<lparr>activity_name = a, email = e\<rparr>])\<rparr>)))"

text \<open>\<open>SELECT name FROM activities WHERE name = ?\<close> with \<open>fetchone()\<close>: the first match or \<open>None\<close>.\<close>

definition select_activity :: "string \<Rightarrow> database \<Rightarrow> error + string option" where
  "select_activity a db =
     (case activities db of
        None \<Rightarrow> Inl OperationalError
      | Some rows \<Rightarrow> Inr (find (\<lambda>n. n = a) (map name rows)))"

text \<open>\<open>SELECT 1 FROM registrations WHERE activity_name = ? AND email = ?\<close> with \<open>fetchone()\<close>\<close>

definition select_registration :: "string \<Rightarrow> string \<Rightarrow> database \<Rightarrow> error + int option" where
  "select_registration a e db =
     (case registrations db of
        None \<Rightarrow> Inl OperationalError
      | Some regs \<Rightarrow>
          Inr (map_option (\<lambda>_. 1) (find (\<lambda>r. activity_name r = a \<and> email r = e) regs)))"

text \<open>
  \<open>DELETE FROM registrations WHERE activity_name = ? AND email = ?\<close>: the number of rows deleted
  (\<open>rowcount\<close>) and the database without them.
\<close>

definition delete_registration :: "string \<Rightarrow> string \<Rightarrow> database \<Rightarrow> error + nat \<times> database" where
  "delete_registration a e db =
     (case registrations db of
        None \<Rightarrow> Inl OperationalError
      | Some regs \<Rightarrow>
          Inr (length (filter (\<lambda>r. activity_name r = a \<and> email r = e) regs),
               db\<lparr>registrations :=
                    Some (filter (\<lambda>r. \<not> (activity_name r = a \<and> email r = e)) regs)\<rparr>))"

text \<open>\<open>SELECT name, description, schedule, max_participants FROM activities ORDER BY name\<close>\<close>

definition select_activities :: "database \<Rightarrow> error + activity_row list" where
  "select_activities db =
     (case activities db of
        None \<Rightarrow> Inl OperationalError
      | Some rows \<Rightarrow> Inr (sort_key name rows))"

text \<open>\<open>SELECT email FROM registrations WHERE activity_name = ? ORDER BY email\<close>\<close>

definition select_emails :: "string \<Rightarrow> database \<Rightarrow> error + string list" where
  "select_emails a db =
     (case registrations db of
        None \<Rightarrow> Inl OperationalError
      | Some regs \<Rightarrow>
          Inr (map email (sort_key email (filter (\<lambda>r. activity_name r = a) regs))))"

section \<open>Transactions\<close>

text \<open>
  \<open>with get_connection() as connection\<close>: the block's changes are committed when it ends
  normally and rolled back when it raises; the exception is raised again.
\<close>

definition with_connection ::
  "(database \<Rightarrow> (error + 'a) \<times> database) \<Rightarrow> database \<Rightarrow> (error + 'a) \<times> database" where
  "with_connection body db =
     (case body db of
        (Inl err, _) \<Rightarrow> (Inl err, db)
      | (Inr v, db') \<Rightarrow> (Inr v, db'))"

section \<open>\<open>init_db\<close>\<close>

fun insert_participants :: "string \<Rightarrow> string list \<Rightarrow> database \<Rightarrow> error + database" where
  "insert_participants a [] db = Inr db"
| "insert_participants a (e # es) db =
     (case insert_registration a e db of
        Inl err \<Rightarrow> Inl err
      | Inr db' \<Rightarrow> insert_participants a es db')"

fun seed :: "(string \<times> activity_entry) list \<Rightarrow> database \<Rightarrow> error + database" where
  "seed [] db = Inr db"
| "seed ((a, details) # rest) db =
     (case insert_activity
             \<lparr>description = description details, schedule = schedule details,
              max_participants = max_participants details, name = a\<rparr> db of
        Inl err \<Rightarrow> Inl err
      | Inr db1 \<Rightarrow>
          (case insert_participants a (participants details) db1 of
             Inl err \<Rightarrow> Inl err
           | Inr db2 \<Rightarrow> seed rest db2))"

text \<open>
  The two \<open>CREATE TABLE\<close> statements come before any \<open>INSERT\<close>; \<open>sqlite3\<close> opens its
  transaction at the first \<open>INSERT\<close>, so a rollback undoes the seeding and keeps the tables.
\<close>

definition init_db :: "database \<Rightarrow> (error + unit) \<times> database" where
  "init_db db =
     (let db1 = create_activities db;
          db2 = create_registrations db1
      in with_connection
           (\<lambda>d. case count_activities d of
                  Inl err \<Rightarrow> (Inl err, d)
                | Inr existing_count \<Rightarrow>
                    if existing_count = 0 then
                      (case seed INITIAL_ACTIVITIES d of
                         Inl err \<Rightarrow> (Inl err, d)
                       | Inr d' \<Rightarrow> (Inr (), d'))
                    else (Inr (), d))
           db2)"

section \<open>\<open>fetch_activities\<close>\<close>

text \<open>
  \<open>activities[key] = value\<close> on a Python dictionary, which keeps insertion order: a known key
  keeps its place and gets the new value, a new key goes to the end.
\<close>

primrec dict_set :: "'k \<Rightarrow> 'v \<Rightarrow> ('k \<times> 'v) list \<Rightarrow> ('k \<times> 'v) list" where
  "dict_set k v [] = [(k, v)]"
| "dict_set k v (p # ps) = (if fst p = k then (k, v) # ps else p # dict_set k v ps)"

primrec dict_get :: "('k \<times> 'v) list \<Rightarrow> 'k \<Rightarrow> 'v option" where
  "dict_get [] k = None"
| "dict_get (p # ps) k = (if fst p = k then Some (snd p) else dict_get ps k)"

fun fetch_loop ::
  "activity_row list \<Rightarrow> database \<Rightarrow> (string \<times> activity_entry) list
     \<Rightarrow> error + (string \<times> activity_entry) list" where
  "fetch_loop [] db acts = Inr acts"
| "fetch_loop (row # rows) db acts =
     (case select_emails (name row) db of
        Inl err \<Rightarrow> Inl err
      | Inr participant_rows \<Rightarrow>
          fetch_loop rows db
            (dict_set (name row)
               \<lparr>description = description row, schedule = schedule row,
                max_participants = max_participants row,
                participants = participant_rows\<rparr> acts))"

definition fetch_activities :: "database \<Rightarrow> error + (string \<times> activity_entry) list" where
  "fetch_activities db =
     (case select_activities db of
        Inl err \<Rightarrow> Inl err
      | Inr activities_rows \<Rightarrow> fetch_loop activities_rows db [])"

definition get_activities :: "database \<Rightarrow> error + (string \<times> activity_entry) list" where
  "get_activities db = fetch_activities db"

section \<open>\<open>signup_for_activity\<close> and \<open>unregister_from_activity\<close>\<close>

definition signup_for_activity ::
  "string \<Rightarrow> string \<Rightarrow> database \<Rightarrow> (error + (string \<times> string) list) \<times> database" where
  "signup_for_activity a e db =
     (case with_connection
             (\<lambda>d. case select_activity a d of
                    Inl err \<Rightarrow> (Inl err, d)
                  | Inr None \<Rightarrow> (Inl (HTTPException 404 ''Activity not found''), d)
                  | Inr (Some activity_row) \<Rightarrow>
                      (case select_registration a e d of
                         Inl err \<Rightarrow> (Inl err, d)
                       | Inr (Some existing_registration) \<Rightarrow>
                           (Inl (HTTPException 400 ''Student is already signed up''), d)
                       | Inr None \<Rightarrow>
                           (case insert_registration a e d of
                              Inl err \<Rightarrow> (Inl err, d)
                            | Inr d' \<Rightarrow> (Inr (), d'))))
             db of
        (Inl err, db') \<Rightarrow> (Inl err, db')
      | (Inr _, db') \<Rightarrow>
          (Inr [(''message'', ''Signed up '' @ e @ '' for '' @ a)], db'))"

definition unregister_from_activity ::
  "string \<Rightarrow> string \<Rightarrow> database \<Rightarrow> (error + (string \<times> string) list) \<times> database" where
  "unregister_from_activity a e db =
     (case with_connection
             (\<lambda>d. case select_activity a d of
                    Inl err \<Rightarrow> (Inl err, d)
                  | Inr None \<Rightarrow> (Inl (HTTPException 404 ''Activity not found''), d)
                  | Inr (Some activity_row) \<Rightarrow>
                      (case delete_registration a e d of
                         Inl err \<Rightarrow> (Inl err, d)
                       | Inr (rowcount, d') \<Rightarrow>
                           if rowcount = 0 then
                             (Inl (HTTPException 400
                                     ''Student is not signed up for this activity''), d')
                           else (Inr (), d')))
             db of
        (Inl err, db') \<Rightarrow> (Inl err, db')
      | (Inr _, db') \<Rightarrow>
          (Inr [(''message'', ''Unregistered '' @ e @ '' from '' @ a)], db'))"

section \<open>Vocabulary of the specification\<close>

text \<open>
  What the specification calls an existing activity, an existing registration and a store
  with its two tables, read off the database; the participants that \<open>fetch_activities\<close>
  lists for an activity; and a small store used as a concrete input.
\<close>

definition activity_exists :: "string \<Rightarrow> database \<Rightarrow> bool" where
  "activity_exists a db =
     (case activities db of None \<Rightarrow> False | Some rows \<Rightarrow> a \<in> set (map name rows))"

definition registered :: "string \<Rightarrow> string \<Rightarrow> database \<Rightarrow> bool" where
  "registered a e db =
     (case registrations db of
        None \<Rightarrow> False
      | Some regs \<Rightarrow> \<lparr>activity_name = a, email = e\<rparr> \<in> set regs)"

definition has_schema :: "database \<Rightarrow> bool" where
  "has_schema db = (activities db \<noteq> None \<and> registrations db \<noteq> None)"

definition listed_emails :: "string \<Rightarrow> registration_row list \<Rightarrow> string list" where
  "listed_emails a regs = map email (sort_key email (filter (\<lambda>r. activity_name r = a) regs))"

definition listed_entry :: "registration_row list \<Rightarrow> activity_row \<Rightarrow> activity_entry" where
  "listed_entry regs row =
     \<lparr>description = description row, schedule = schedule row,
      max_participants = max_participants row,
      participants = listed_emails (name row) regs\<rparr>"

definition chess_store :: database where
  "chess_store =
     \<lparr>activities = Some [\<lparr>description = ''Learn strategies and compete in chess tournaments'',
                          schedule = ''Fridays, 3:30 PM - 5:00 PM'',
                          max_participants = 1, name = ''Chess Club''\<rparr>],
      registrations = Some [\<lparr>activity_name = ''Chess Club'',
                             email = ''daniel@mergington.edu''\<rparr>]\<rparr>"

text \<open>
  The constraints the schema declares: both primary keys, the \<open>CHECK\<close> on
  \<open>max_participants\<close> and the foreign key of \<open>registrations\<close>.
\<close>

definition store_ok :: "database \<Rightarrow> bool" where
  "store_ok db =
     (case activities db of
        None \<Rightarrow> False
      | Some rows \<Rightarrow>
          (case registrations db of
             None \<Rightarrow> False
           | Some regs \<Rightarrow>
               distinct (map name rows) \<and> (\<forall>row \<in> set rows. 0 < max_participants row) \<and>
               distinct regs \<and> (\<forall>r \<in> set regs. activity_name r \<in> set (map name rows))))"

definition club_store :: database where
  "club_store =
     \<lparr>activities = Some [\<lparr>description = ''Learn strategies and compete in chess tournaments'',
                          schedule = ''Fridays, 3:30 PM - 5:00 PM'',
                          max_participants = 12, name = ''Chess Club''\<rparr>,
                         \<lparr>description = ''Explore your creativity through painting and drawing'',
                          schedule = ''Thursdays, 3:30 PM - 5:00 PM'',
                          max_participants = 15, name = ''Art Club''\<rparr>],
      registrations = Some [\<lparr>activity_name = ''Chess Club'', email = ''michael@mergington.edu''\<rparr>,
                            \<lparr>activity_name = ''Art Club'', email = ''amelia@mergington.edu''\<rparr>,
                            \<lparr>activity_name = ''Chess Club'', email = ''daniel@mergington.edu''\<rparr>]\<rparr>"

section \<open>The statements on a store with its tables\<close>

lemma registration_row_eq:
  "(activity_name r = a \<and> email r = e) = (r = \<lparr>activity_name = a, email = e\<rparr>)"
  by (cases r) auto

lemma find_eq_mem: "find (\<lambda>n. n = a) xs = (if a \<in> set xs then Some a else None)"
  by (induction xs) auto

lemma find_registration:
  "find (\<lambda>r. activity_name r = a \<and> email r = e) regs =
     (if \<lparr>activity_name = a, email = e\<rparr> \<in> set regs
      then Some \<lparr>activity_name = a, email = e\<rparr> else None)"
  by (induction regs) (auto simp: registration_row_eq)

lemma select_activity_eq:
  "activities db = Some rows \<Longrightarrow>
     select_activity a db = Inr (if a \<in> set (map name rows) then Some a else None)"
  by (simp add: select_activity_def find_eq_mem)

lemma select_registration_eq:
  "registrations db = Some regs \<Longrightarrow>
     select_registration a e db =
       Inr (if \<lparr>activity_name = a, email = e\<rparr> \<in> set regs then Some 1 else None)"
  by (simp add: select_registration_def find_registration)

lemma rowcount_zero_iff:
  "(filter (\<lambda>r. activity_name r = a \<and> email r = e) regs = []) =
     (\<lparr>activity_name = a, email = e\<rparr> \<notin> set regs)"
  by (auto simp: registration_row_eq filter_empty_conv)

lemma filter_eq_row_empty:
  "(filter (\<lambda>r. r = x) regs = []) = (x \<notin> set regs)"
  by (auto simp: filter_empty_conv)

lemma signup_unknown:
  assumes "activities db = Some rows" and "a \<notin> set (map name rows)"
  shows "signup_for_activity a e db = (Inl NotFound, db)"
  using assms by (simp add: signup_for_activity_def with_connection_def select_activity_eq NotFound_def)

lemma unregister_unknown:
  assumes "activities db = Some rows" and "a \<notin> set (map name rows)"
  shows "unregister_from_activity a e db = (Inl NotFound, db)"
  using assms by (simp add: unregister_from_activity_def with_connection_def select_activity_eq NotFound_def)

lemma signup_duplicate:
  assumes "activities db = Some rows" and "a \<in> set (map name rows)"
    and "registrations db = Some regs" and "\<lparr>activity_name = a, email = e\<rparr> \<in> set regs"
  shows "signup_for_activity a e db = (Inl Conflict, db)"
  using assms
  by (simp add: signup_for_activity_def with_connection_def select_activity_eq
      select_registration_eq Conflict_def)

lemma signup_new:
  assumes "activities db = Some rows" and "a \<in> set (map name rows)"
    and "registrations db = Some regs" and "\<lparr>activity_name = a, email = e\<rparr> \<notin> set regs"
  shows "signup_for_activity a e db =
           (Inr [(''message'', ''Signed up '' @ e @ '' for '' @ a)],
            db\<lparr>registrations := Some (regs @ [\<lparr>activity_name = a, email = e\<rparr>])\<rparr>)"
  using assms
  by (simp add: signup_for_activity_def with_connection_def select_activity_eq
      select_registration_eq insert_registration_def)

lemma unregister_absent:
  assumes "activities db = Some rows" and "a \<in> set (map name rows)"
    and "registrations db = Some regs" and "\<lparr>activity_name = a, email = e\<rparr> \<notin> set regs"
  shows "unregister_from_activity a e db = (Inl InvalidOperation, db)"
  using assms
  by (simp add: unregister_from_activity_def with_connection_def select_activity_eq
      delete_registration_def rowcount_zero_iff InvalidOperation_def)

lemma unregister_present:
  assumes "activities db = Some rows" and "a \<in> set (map name rows)"
    and "registrations db = Some regs" and "\<lparr>activity_name = a, email = e\<rparr> \<in> set regs"
  shows "unregister_from_activity a e db =
           (Inr [(''message'', ''Unregistered '' @ e @ '' from '' @ a)],
            db\<lparr>registrations :=
                 Some (filter (\<lambda>r. r \<noteq> \<lparr>activity_name = a, email = e\<rparr>) regs)\<rparr>)"
  using assms
  by (simp add: unregister_from_activity_def with_connection_def select_activity_eq
      delete_registration_def registration_row_eq filter_eq_row_empty)

lemma signup_failure_unchanged:
  "signup_for_activity a e db = (Inl err, db') \<Longrightarrow> db' = db"
  by (auto simp: signup_for_activity_def with_connection_def split: prod.splits sum.splits)

lemma unregister_failure_unchanged:
  "unregister_from_activity a e db = (Inl err, db') \<Longrightarrow> db' = db"
  by (auto simp: unregister_from_activity_def with_connection_def split: prod.splits sum.splits)

lemma signup_success_cases:
  assumes "signup_for_activity a e db = (Inr m, db')"
  shows "\<exists>rows regs. activities db = Some rows \<and> a \<in> set (map name rows) \<and>
           registrations db = Some regs \<and> \<lparr>activity_name = a, email = e\<rparr> \<notin> set regs"
proof -
  obtain rows where rows: "activities db = Some rows"
    using assms
    by (cases "activities db")
      (auto simp: signup_for_activity_def with_connection_def select_activity_def)
  have mem: "a \<in> set (map name rows)"
    using assms rows
    by (auto simp: signup_for_activity_def with_connection_def select_activity_eq
        split: if_splits)
  obtain regs where regs: "registrations db = Some regs"
    using assms rows mem
    by (cases "registrations db")
      (auto simp: signup_for_activity_def with_connection_def select_activity_eq
        select_registration_def)
  have "\<lparr>activity_name = a, email = e\<rparr> \<notin> set regs"
    using assms rows mem regs
    by (auto simp: signup_for_activity_def with_connection_def select_activity_eq
        select_registration_eq split: if_splits)
  with rows mem regs show ?thesis by blast
qed

lemma unregister_success_cases:
  assumes "unregister_from_activity a e db = (Inr m, db')"
  shows "\<exists>rows regs. activities db = Some rows \<and> a \<in> set (map name rows) \<and>
           registrations db = Some regs \<and> \<lparr>activity_name = a, email = e\<rparr> \<in> set regs"
proof -
  obtain rows where rows: "activities db = Some rows"
    using assms
    by (cases "activities db")
      (auto simp: unregister_from_activity_def with_connection_def select_activity_def)
  have mem: "a \<in> set (map name rows)"
    using assms rows
    by (auto simp: unregister_from_activity_def with_connection_def select_activity_eq
        split: if_splits)
  obtain regs where regs: "registrations db = Some regs"
    using assms rows mem
    by (cases "registrations db")
      (auto simp: unregister_from_activity_def with_connection_def select_activity_eq
        delete_registration_def)
  have "\<lparr>activity_name = a, email = e\<rparr> \<in> set regs"
    using assms rows mem regs
    by (auto simp: unregister_from_activity_def with_connection_def select_activity_eq
        delete_registration_def rowcount_zero_iff split: if_splits)
  with rows mem regs show ?thesis by blast
qed

section \<open>The listing\<close>

lemma sorted_listed_emails: "sorted (listed_emails a regs)"
  by (simp add: listed_emails_def)

lemma set_listed_emails:
  "set (listed_emails a regs) = {e. \<lparr>activity_name = a, email = e\<rparr> \<in> set regs}"
proof -
  have "\<And>r. (r \<in> set regs \<and> activity_name r = a) =
          (\<lparr>activity_name = a, email = email r\<rparr> \<in> set regs \<and> activity_name r = a)"
    by (metis registration_row_eq)
  then show ?thesis
    by (auto simp: listed_emails_def image_iff) force
qed

lemma distinct_listed_emails: "distinct regs \<Longrightarrow> distinct (listed_emails a regs)"
proof -
  assume d: "distinct regs"
  have "inj_on email (set (filter (\<lambda>r. activity_name r = a) regs))"
    by (rule inj_onI) (auto intro: registration_row.equality)
  with d show ?thesis
    by (simp add: listed_emails_def distinct_map)
qed

lemma dict_get_dict_set:
  "dict_get (dict_set k v d) k' = (if k' = k then Some v else dict_get d k')"
  by (induction d) auto

lemma keys_dict_set:
  "map fst (dict_set k v d) = (if k \<in> set (map fst d) then map fst d else map fst d @ [k])"
  by (induction d) auto

lemma set_keys_dict_set: "fst ` set (dict_set k v d) = insert k (fst ` set d)"
  by (induction d) auto

lemma dict_get_None: "(dict_get d k = None) = (k \<notin> set (map fst d))"
  by (induction d) auto

lemma dict_get_distinct: "distinct (map fst d) \<Longrightarrow> (k, v) \<in> set d \<Longrightarrow> dict_get d k = Some v"
  by (induction d) (auto simp: rev_image_eqI)

lemma fetch_loop_fold:
  "registrations db = Some regs \<Longrightarrow>
     fetch_loop rows db acts =
       Inr (fold (\<lambda>row. dict_set (name row) (listed_entry regs row)) rows acts)"
  by (induction rows arbitrary: acts)
    (simp_all add: select_emails_def listed_entry_def listed_emails_def)

lemma fold_dict_set_get:
  "dict_get (fold (\<lambda>row. dict_set (name row) (f row)) rows acts) k = Some v \<Longrightarrow>
     dict_get acts k = Some v \<or> (\<exists>row \<in> set rows. name row = k \<and> v = f row)"
  by (induction rows arbitrary: acts) (fastforce simp: dict_get_dict_set split: if_splits)+

lemma fold_dict_set_keys:
  "set (map fst (fold (\<lambda>row. dict_set (name row) (f row)) rows acts)) =
     set (map fst acts) \<union> set (map name rows)"
  by (induction rows arbitrary: acts) (simp_all add: set_keys_dict_set)

lemma fold_dict_set_sorted:
  "sorted_wrt (<) (map fst acts) \<Longrightarrow> sorted (map fst acts @ map name rows) \<Longrightarrow>
     sorted_wrt (<) (map fst (fold (\<lambda>row. dict_set (name row) (f row)) rows acts))"
proof (induction rows arbitrary: acts)
  case Nil
  then show ?case by simp
next
  case (Cons r rows)
  let ?acts = "dict_set (name r) (f r) acts"
  show ?case
  proof (cases "name r \<in> set (map fst acts)")
    case True
    then have k: "map fst ?acts = map fst acts" by (simp add: keys_dict_set)
    have "sorted (map fst acts @ map name rows)"
      using Cons.prems(2) by (auto simp: sorted_append)
    with Cons.IH [of ?acts] Cons.prems(1) k show ?thesis by simp
  next
    case False
    then have k: "map fst ?acts = map fst acts @ [name r]" by (simp add: keys_dict_set)
    have le: "\<forall>x \<in> set (map fst acts). x \<le> name r"
      using Cons.prems(2) by (auto simp: sorted_append)
    with False have "\<forall>x \<in> set (map fst acts). x < name r"
      by (metis order_le_imp_less_or_eq)
    with Cons.prems(1) have s1: "sorted_wrt (<) (map fst ?acts)"
      by (simp add: k sorted_wrt_append)
    have s2: "sorted (map fst ?acts @ map name rows)"
      using Cons.prems(2) by (simp add: k)
    from Cons.IH [OF s1 s2] show ?thesis by simp
  qed
qed

lemma fold_dict_set_distinct_get:
  "distinct (map name rows) \<Longrightarrow> row \<in> set rows \<Longrightarrow>
     dict_get (fold (\<lambda>row. dict_set (name row) (f row)) rows acts) (name row) = Some (f row)"
proof (induction rows arbitrary: acts)
  case Nil
  then show ?case by simp
next
  case (Cons r rows)
  show ?case
  proof (cases "row \<in> set rows")
    case True
    with Cons show ?thesis by simp
  next
    case False
    with Cons.prems have eq: "row = r" and notin: "name r \<notin> set (map name rows)" by auto
    let ?res = "fold (\<lambda>row. dict_set (name row) (f row)) rows (dict_set (name r) (f r) acts)"
    have "name r \<in> set (map fst ?res)"
      unfolding fold_dict_set_keys by (simp add: set_keys_dict_set)
    then obtain v where v: "dict_get ?res (name r) = Some v"
      using dict_get_None [of ?res "name r"] by (cases "dict_get ?res (name r)") auto
    have "\<not> (\<exists>row \<in> set rows. name row = name r \<and> v = f row)"
      using notin by (metis image_eqI set_map)
    with fold_dict_set_get [OF v] have "v = f r"
      by (simp add: dict_get_dict_set)
    with v eq show ?thesis by simp
  qed
qed

lemma fetch_activities_fold:
  "activities db = Some rows \<Longrightarrow> registrations db = Some regs \<Longrightarrow>
     fetch_activities db =
       Inr (fold (\<lambda>row. dict_set (name row) (listed_entry regs row)) (sort_key name rows) [])"
  by (simp add: fetch_activities_def select_activities_def fetch_loop_fold)

lemma fetch_activities_lookup:
  assumes rows: "activities db = Some rows" and regs: "registrations db = Some regs"
    and mem: "a \<in> set (map name rows)"
  shows "\<exists>acts entry. fetch_activities db = Inr acts \<and> dict_get acts a = Some entry \<and>
           participants entry = listed_emails a regs"
proof -
  let ?acts = "fold (\<lambda>row. dict_set (name row) (listed_entry regs row)) (sort_key name rows) []"
  have fetch: "fetch_activities db = Inr ?acts"
    by (rule fetch_activities_fold [OF rows regs])
  have "a \<in> set (map fst ?acts)"
    unfolding fold_dict_set_keys using mem by simp
  then obtain entry where entry: "dict_get ?acts a = Some entry"
    using dict_get_None [of ?acts a] by (cases "dict_get ?acts a") auto
  from fold_dict_set_get [OF entry] obtain row where "name row = a"
    and "entry = listed_entry regs row"
    by auto
  then have "participants entry = listed_emails a regs"
    by (simp add: listed_entry_def)
  with fetch entry show ?thesis by blast
qed

lemma init_db_nonempty:
  "activities db = Some rows \<Longrightarrow> rows \<noteq> [] \<Longrightarrow>
     init_db db = (Inr (), create_registrations db)"
  by (cases "registrations db")
    (simp_all add: init_db_def create_activities_def create_registrations_def
      with_connection_def count_activities_def)

section \<open>Properties\<close>

lemma activity_existsD:
  "activity_exists a db \<Longrightarrow> \<exists>rows. activities db = Some rows \<and> a \<in> set (map name rows)"
  by (cases "activities db") (auto simp: activity_exists_def)

lemma has_schemaD:
  "has_schema db \<Longrightarrow> \<exists>rows regs. activities db = Some rows \<and> registrations db = Some regs"
  by (auto simp: has_schema_def)

text \<open>
  C1. For an activity that exists, in a store with both tables: signing up an email that is
  already registered for it raises the 400 "Student is already signed up" and leaves the store
  as it was; signing up an email that is not registered returns the message
  "Signed up {email} for {activity_name}" with status 200, the registration exists afterwards,
  and the same call repeated on the new store raises the 400.
\<close>

theorem signup_existing_activity:
  assumes "activity_exists a db" and "has_schema db"
  shows "(registered a e db \<longrightarrow>
            signup_for_activity a e db = (Inl Conflict, db) \<and>
            Conflict = HTTPException 400 ''Student is already signed up'' \<and>
            status_code (fst (signup_for_activity a e db)) = 400)
       \<and> (\<not> registered a e db \<longrightarrow>
            (\<exists>db'. signup_for_activity a e db =
                     (Inr [(''message'', ''Signed up '' @ e @ '' for '' @ a)], db') \<and>
                   status_code (fst (signup_for_activity a e db)) = 200 \<and>
                   registered a e db' \<and> activity_exists a db' \<and>
                   signup_for_activity a e db' = (Inl Conflict, db') \<and>
                   status_code (fst (signup_for_activity a e db')) = 400))"
proof -
  from assms obtain rows regs where rows: "activities db = Some rows"
    and mem: "a \<in> set (map name rows)" and regs: "registrations db = Some regs"
    using activity_existsD has_schemaD by (metis option.inject)
  let ?r = "\<lparr>activity_name = a, email = e\<rparr>"
  have dup: "registered a e db \<longrightarrow>
            signup_for_activity a e db = (Inl Conflict, db) \<and>
            Conflict = HTTPException 400 ''Student is already signed up'' \<and>
            status_code (fst (signup_for_activity a e db)) = 400"
    using signup_duplicate [OF rows mem regs, of e] regs
    by (simp add: registered_def Conflict_def)
  have new: "\<exists>db'. signup_for_activity a e db =
                     (Inr [(''message'', ''Signed up '' @ e @ '' for '' @ a)], db') \<and>
                   status_code (fst (signup_for_activity a e db)) = 200 \<and>
                   registered a e db' \<and> activity_exists a db' \<and>
                   signup_for_activity a e db' = (Inl Conflict, db') \<and>
                   status_code (fst (signup_for_activity a e db')) = 400"
    if "\<not> registered a e db"
  proof -
    let ?db' = "db\<lparr>registrations := Some (regs @ [?r])\<rparr>"
    from that regs have notin: "?r \<notin> set regs" by (simp add: registered_def)
    have first: "signup_for_activity a e db =
        (Inr [(''message'', ''Signed up '' @ e @ '' for '' @ a)], ?db')"
      by (rule signup_new [OF rows mem regs notin])
    have rows': "activities ?db' = Some rows" using rows by simp
    have regs': "registrations ?db' = Some (regs @ [?r])" by simp
    have second: "signup_for_activity a e ?db' = (Inl Conflict, ?db')"
      by (rule signup_duplicate [OF rows' mem regs']) simp
    show ?thesis
      using first second rows mem
      by (intro exI [of _ ?db']) (simp add: registered_def activity_exists_def Conflict_def)
  qed
  from dup new show ?thesis by blast
qed

theorem signup_existing_activity_witness:
  "signup_for_activity ''Chess Club'' ''daniel@mergington.edu'' chess_store =
     (Inl Conflict, chess_store) \<and>
   (\<exists>db'. signup_for_activity ''Chess Club'' ''new@mergington.edu'' chess_store =
            (Inr [(''message'', ''Signed up new@mergington.edu for Chess Club'')], db') \<and>
          signup_for_activity ''Chess Club'' ''new@mergington.edu'' db' = (Inl Conflict, db'))"
proof -
  have ex: "activity_exists ''Chess Club'' chess_store"
    by (simp add: activity_exists_def chess_store_def)
  have sc: "has_schema chess_store"
    by (simp add: has_schema_def chess_store_def)
  have r1: "registered ''Chess Club'' ''daniel@mergington.edu'' chess_store"
    by (simp add: registered_def chess_store_def)
  have r2: "\<not> registered ''Chess Club'' ''new@mergington.edu'' chess_store"
    by (simp add: registered_def chess_store_def)
  from signup_existing_activity [OF ex sc, of "''daniel@mergington.edu''"] r1
    signup_existing_activity [OF ex sc, of "''new@mergington.edu''"] r2
  show ?thesis by auto
qed

text \<open>
  C2. For a name that no row of table \<open>activities\<close> carries, both handlers raise the 404
  "Activity not found" and leave the store as it was, whatever table \<open>registrations\<close> holds.
\<close>

theorem unknown_activity_not_found:
  assumes "activities db \<noteq> None" and "\<not> activity_exists a db"
  shows "signup_for_activity a e db = (Inl NotFound, db) \<and>
         unregister_from_activity a e db = (Inl NotFound, db) \<and>
         NotFound = HTTPException 404 ''Activity not found'' \<and>
         status_code (fst (signup_for_activity a e db)) = 404 \<and>
         status_code (fst (unregister_from_activity a e db)) = 404"
proof -
  from assms obtain rows where rows: "activities db = Some rows"
    and notin: "a \<notin> set (map name rows)"
    by (auto simp: activity_exists_def)
  show ?thesis
    using signup_unknown [OF rows notin, of e] unregister_unknown [OF rows notin, of e]
    by (simp add: NotFound_def)
qed

theorem unknown_activity_not_found_witness:
  "signup_for_activity ''Knitting'' ''daniel@mergington.edu''
     (chess_store\<lparr>registrations :=
        Some [\<lparr>activity_name = ''Knitting'', email = ''daniel@mergington.edu''\<rparr>]\<rparr>) =
     (Inl (HTTPException 404 ''Activity not found''),
      chess_store\<lparr>registrations :=
        Some [\<lparr>activity_name = ''Knitting'', email = ''daniel@mergington.edu''\<rparr>]\<rparr>) \<and>
   unregister_from_activity ''Knitting'' ''daniel@mergington.edu''
     (chess_store\<lparr>registrations :=
        Some [\<lparr>activity_name = ''Knitting'', email = ''daniel@mergington.edu''\<rparr>]\<rparr>) =
     (Inl (HTTPException 404 ''Activity not found''),
      chess_store\<lparr>registrations :=
        Some [\<lparr>activity_name = ''Knitting'', email = ''daniel@mergington.edu''\<rparr>]\<rparr>)"
proof -
  let ?db = "chess_store\<lparr>registrations :=
        Some [\<lparr>activity_name = ''Knitting'', email = ''daniel@mergington.edu''\<rparr>]\<rparr>"
  have t: "activities ?db \<noteq> None" by (simp add: chess_store_def)
  have n: "\<not> activity_exists ''Knitting'' ?db"
    by (simp add: activity_exists_def chess_store_def)
  from unknown_activity_not_found [OF t n, of "''daniel@mergington.edu''"]
  show ?thesis by simp
qed

text \<open>
  C3. For an activity that exists, in a store with both tables: unregistering an email that
  is not registered for it raises the 400 "Student is not signed up for this activity" and
  leaves the store as it was; unregistering a registered email returns the message
  "Unregistered {email} from {activity_name}" with status 200 and the registration is gone
  afterwards.
\<close>

theorem unregister_existing_activity:
  assumes "activity_exists a db" and "has_schema db"
  shows "(\<not> registered a e db \<longrightarrow>
            unregister_from_activity a e db = (Inl InvalidOperation, db) \<and>
            InvalidOperation =
              HTTPException 400 ''Student is not signed up for this activity'' \<and>
            status_code (fst (unregister_from_activity a e db)) = 400)
       \<and> (registered a e db \<longrightarrow>
            (\<exists>db'. unregister_from_activity a e db =
                     (Inr [(''message'', ''Unregistered '' @ e @ '' from '' @ a)], db') \<and>
                   status_code (fst (unregister_from_activity a e db)) = 200 \<and>
                   \<not> registered a e db'))"
proof -
  from assms obtain rows regs where rows: "activities db = Some rows"
    and mem: "a \<in> set (map name rows)" and regs: "registrations db = Some regs"
    using activity_existsD has_schemaD by (metis option.inject)
  show ?thesis
    using unregister_absent [OF rows mem regs, of e]
      unregister_present [OF rows mem regs, of e] regs
    by (auto simp: registered_def InvalidOperation_def)
qed

theorem unregister_existing_activity_witness:
  "unregister_from_activity ''Chess Club'' ''new@mergington.edu'' chess_store =
     (Inl InvalidOperation, chess_store) \<and>
   (\<exists>db'. unregister_from_activity ''Chess Club'' ''daniel@mergington.edu'' chess_store =
            (Inr [(''message'', ''Unregistered daniel@mergington.edu from Chess Club'')], db') \<and>
          \<not> registered ''Chess Club'' ''daniel@mergington.edu'' db')"
proof -
  have ex: "activity_exists ''Chess Club'' chess_store"
    by (simp add: activity_exists_def chess_store_def)
  have sc: "has_schema chess_store"
    by (simp add: has_schema_def chess_store_def)
  have r1: "registered ''Chess Club'' ''daniel@mergington.edu'' chess_store"
    by (simp add: registered_def chess_store_def)
  have r2: "\<not> registered ''Chess Club'' ''new@mergington.edu'' chess_store"
    by (simp add: registered_def chess_store_def)
  from unregister_existing_activity [OF ex sc, of "''daniel@mergington.edu''"] r1
    unregister_existing_activity [OF ex sc, of "''new@mergington.edu''"] r2
  show ?thesis by auto
qed

text \<open>
  C4. When \<open>signup_for_activity\<close> returns normally, the listing of the store it leaves has
  an entry for the activity whose participants contain the email; when
  \<open>unregister_from_activity\<close> returns normally, the listing of the store it leaves has an
  entry for the activity whose participants do not contain the email.
\<close>

theorem signup_unregister_listing:
  "(signup_for_activity a e db = (Inr m, db') \<longrightarrow>
      (\<exists>acts entry. get_activities db' = Inr acts \<and> dict_get acts a = Some entry \<and>
                     e \<in> set (participants entry)))
 \<and> (unregister_from_activity a e db = (Inr m, db') \<longrightarrow>
      (\<exists>acts entry. get_activities db' = Inr acts \<and> dict_get acts a = Some entry \<and>
                     e \<notin> set (participants entry)))"
proof (intro conjI impI)
  let ?r = "\<lparr>activity_name = a, email = e\<rparr>"
  assume ok: "signup_for_activity a e db = (Inr m, db')"
  from signup_success_cases [OF ok] obtain rows regs where rows: "activities db = Some rows"
    and mem: "a \<in> set (map name rows)" and regs: "registrations db = Some regs"
    and notin: "?r \<notin> set regs"
    by blast
  from signup_new [OF rows mem regs notin] ok
  have db': "db' = db\<lparr>registrations := Some (regs @ [?r])\<rparr>" by simp
  have rows': "activities db' = Some rows" and regs': "registrations db' = Some (regs @ [?r])"
    using rows by (simp_all add: db')
  from fetch_activities_lookup [OF rows' regs' mem] obtain acts entry
    where "fetch_activities db' = Inr acts" and "dict_get acts a = Some entry"
      and "participants entry = listed_emails a (regs @ [?r])"
    by blast
  moreover have "e \<in> set (listed_emails a (regs @ [?r]))"
    by (simp add: set_listed_emails)
  ultimately show "\<exists>acts entry. get_activities db' = Inr acts \<and>
      dict_get acts a = Some entry \<and> e \<in> set (participants entry)"
    by (auto simp: get_activities_def)
next
  let ?r = "\<lparr>activity_name = a, email = e\<rparr>"
  assume ok: "unregister_from_activity a e db = (Inr m, db')"
  from unregister_success_cases [OF ok] obtain rows regs where rows: "activities db = Some rows"
    and mem: "a \<in> set (map name rows)" and regs: "registrations db = Some regs"
    and isin: "?r \<in> set regs"
    by blast
  let ?regs' = "filter (\<lambda>r. r \<noteq> ?r) regs"
  from unregister_present [OF rows mem regs isin] ok
  have db': "db' = db\<lparr>registrations := Some ?regs'\<rparr>" by simp
  have rows': "activities db' = Some rows" and regs': "registrations db' = Some ?regs'"
    using rows by (simp_all add: db')
  from fetch_activities_lookup [OF rows' regs' mem] obtain acts entry
    where "fetch_activities db' = Inr acts" and "dict_get acts a = Some entry"
      and "participants entry = listed_emails a ?regs'"
    by blast
  moreover have "e \<notin> set (listed_emails a ?regs')"
    by (simp add: set_listed_emails)
  ultimately show "\<exists>acts entry. get_activities db' = Inr acts \<and>
      dict_get acts a = Some entry \<and> e \<notin> set (participants entry)"
    by (auto simp: get_activities_def)
qed

theorem signup_unregister_listing_witness:
  "(\<exists>m db' acts entry.
      signup_for_activity ''Chess Club'' ''new@mergington.edu'' chess_store = (Inr m, db') \<and>
      get_activities db' = Inr acts \<and> dict_get acts ''Chess Club'' = Some entry \<and>
      ''new@mergington.edu'' \<in> set (participants entry))
 \<and> (\<exists>m db' acts entry.
      unregister_from_activity ''Chess Club'' ''daniel@mergington.edu'' chess_store =
        (Inr m, db') \<and>
      get_activities db' = Inr acts \<and> dict_get acts ''Chess Club'' = Some entry \<and>
      ''daniel@mergington.edu'' \<notin> set (participants entry))"
proof -
  obtain m1 d1 where s: "signup_for_activity ''Chess Club'' ''new@mergington.edu'' chess_store
      = (Inr m1, d1)"
    by (simp add: signup_for_activity_def with_connection_def select_activity_def
        select_registration_def insert_registration_def chess_store_def)
  obtain m2 d2 where u: "unregister_from_activity ''Chess Club'' ''daniel@mergington.edu''
      chess_store = (Inr m2, d2)"
    by (simp add: unregister_from_activity_def with_connection_def select_activity_def
        delete_registration_def chess_store_def)
  from signup_unregister_listing
    [of "''Chess Club''" "''new@mergington.edu''" chess_store m1 d1] s
    signup_unregister_listing
    [of "''Chess Club''" "''daniel@mergington.edu''" chess_store m2 d2] u
  show ?thesis by blast
qed

text \<open>
  C5. For an activity row of any \<open>max_participants\<close> and an email not registered for it,
  \<open>signup_for_activity\<close> returns normally with status 200, however many registrations the
  activity has: the number of its listed participants grows by one, and where it had already
  reached \<open>max_participants\<close> it exceeds it afterwards.
\<close>

theorem signup_ignores_capacity:
  assumes "activities db = Some rows" and "row \<in> set rows" and "name row = a"
    and "registrations db = Some regs" and "\<not> registered a e db"
  shows "\<exists>db' regs'.
           signup_for_activity a e db =
             (Inr [(''message'', ''Signed up '' @ e @ '' for '' @ a)], db') \<and>
           status_code (fst (signup_for_activity a e db)) = 200 \<and>
           registrations db' = Some regs' \<and>
           length (listed_emails a regs') = Suc (length (listed_emails a regs)) \<and>
           (max_participants row \<le> int (length (listed_emails a regs)) \<longrightarrow>
              max_participants row < int (length (listed_emails a regs')))"
proof -
  let ?r = "\<lparr>activity_name = a, email = e\<rparr>"
  from assms have mem: "a \<in> set (map name rows)" by auto
  from assms have notin: "?r \<notin> set regs" by (simp add: registered_def)
  have "length (listed_emails a (regs @ [?r])) = Suc (length (listed_emails a regs))"
    by (simp add: listed_emails_def)
  with signup_new [OF assms(1) mem assms(4) notin] show ?thesis by simp
qed

theorem signup_ignores_capacity_witness:
  "\<exists>db' regs'.
     max_participants (hd (the (activities chess_store))) = 1 \<and>
     length (listed_emails ''Chess Club'' (the (registrations chess_store))) = 1 \<and>
     signup_for_activity ''Chess Club'' ''new@mergington.edu'' chess_store =
       (Inr [(''message'', ''Signed up new@mergington.edu for Chess Club'')], db') \<and>
     registrations db' = Some regs' \<and>
     length (listed_emails ''Chess Club'' regs') = 2"
proof -
  let ?row = "\<lparr>description = ''Learn strategies and compete in chess tournaments'',
               schedule = ''Fridays, 3:30 PM - 5:00 PM'',
               max_participants = 1, name = ''Chess Club''\<rparr>"
  let ?regs = "[\<lparr>activity_name = ''Chess Club'', email = ''daniel@mergington.edu''\<rparr>]"
  have a: "activities chess_store = Some [?row]" by (simp add: chess_store_def)
  have b: "?row \<in> set [?row]" by simp
  have c: "name ?row = ''Chess Club''" by simp
  have d: "registrations chess_store = Some ?regs" by (simp add: chess_store_def)
  have e: "\<not> registered ''Chess Club'' ''new@mergington.edu'' chess_store"
    by (simp add: registered_def chess_store_def)
  have f: "length (listed_emails ''Chess Club'' ?regs) = 1"
    by (simp add: listed_emails_def)
  from signup_ignores_capacity [OF a b c d e] a d f show ?thesis
    by auto
qed

text \<open>
  C6. On a store with both tables the listing succeeds; its keys are the activity names in
  strictly ascending order; every entry's participants are in ascending order (strictly, when
  the registration rows are distinct) and are exactly the emails registered for that name;
  every entry carries the description, schedule and max_participants of a stored row of that
  name, and when names are distinct (the primary key) each stored row is found under its name
  with its own three values.
\<close>

theorem listing_is_ordered:
  assumes rows: "activities db = Some rows" and regs: "registrations db = Some regs"
  shows "\<exists>acts. get_activities db = Inr acts \<and>
           sorted_wrt (<) (map fst acts) \<and>
           set (map fst acts) = set (map name rows) \<and>
           (\<forall>(k, v) \<in> set acts.
              sorted (participants v) \<and>
              set (participants v) = {e. registered k e db} \<and>
              (distinct regs \<longrightarrow> sorted_wrt (<) (participants v)) \<and>
              (\<exists>row \<in> set rows. name row = k \<and> description v = description row \<and>
                 schedule v = schedule row \<and> max_participants v = max_participants row)) \<and>
           (distinct (map name rows) \<longrightarrow>
              (\<forall>row \<in> set rows.
                 \<exists>v. dict_get acts (name row) = Some v \<and> description v = description row \<and>
                   schedule v = schedule row \<and> max_participants v = max_participants row))"
proof -
  let ?f = "listed_entry regs"
  let ?acts = "fold (\<lambda>row. dict_set (name row) (?f row)) (sort_key name rows) []"
  have fetch: "get_activities db = Inr ?acts"
    by (simp add: get_activities_def fetch_activities_fold [OF rows regs])
  have strict: "sorted_wrt (<) (map fst ?acts)"
    by (rule fold_dict_set_sorted) simp_all
  have keys: "set (map fst ?acts) = set (map name rows)"
    unfolding fold_dict_set_keys by simp
  have entries: "sorted (participants v) \<and>
              set (participants v) = {e. registered k e db} \<and>
              (distinct regs \<longrightarrow> sorted_wrt (<) (participants v)) \<and>
              (\<exists>row \<in> set rows. name row = k \<and> description v = description row \<and>
                 schedule v = schedule row \<and> max_participants v = max_participants row)"
    if kv: "(k, v) \<in> set ?acts" for k v
  proof -
    from strict have "distinct (map fst ?acts)"
      by (simp add: strict_sorted_iff)
    from dict_get_distinct [OF this kv] have "dict_get ?acts k = Some v" .
    from fold_dict_set_get [OF this] obtain row where row: "row \<in> set rows"
      and k: "name row = k" and v: "v = ?f row"
      by auto
    have p: "participants v = listed_emails k regs"
      using k v by (simp add: listed_entry_def)
    have "sorted (participants v)"
      by (simp add: p sorted_listed_emails)
    moreover have "set (participants v) = {e. registered k e db}"
      by (simp add: p set_listed_emails registered_def regs)
    moreover have "distinct regs \<longrightarrow> sorted_wrt (<) (participants v)"
      by (simp add: p strict_sorted_iff sorted_listed_emails distinct_listed_emails)
    moreover have "\<exists>row \<in> set rows. name row = k \<and> description v = description row \<and>
                 schedule v = schedule row \<and> max_participants v = max_participants row"
      using row k v by (auto simp: listed_entry_def)
    ultimately show ?thesis by blast
  qed
  have byrow: "\<exists>v. dict_get ?acts (name row) = Some v \<and> description v = description row \<and>
                   schedule v = schedule row \<and> max_participants v = max_participants row"
    if d: "distinct (map name rows)" and row: "row \<in> set rows" for row
  proof -
    from d have "distinct (map name (sort_key name rows))"
      by (simp add: distinct_map)
    moreover from row have "row \<in> set (sort_key name rows)" by simp
    ultimately have "dict_get ?acts (name row) = Some (?f row)"
      by (rule fold_dict_set_distinct_get)
    then show ?thesis by (simp add: listed_entry_def)
  qed
  from fetch strict keys entries byrow show ?thesis
    by (intro exI [of _ ?acts]) blast
qed

theorem listing_is_ordered_witness:
  "get_activities club_store = Inr [
     (''Art Club'', \<lparr>
        description = ''Explore your creativity through painting and drawing'',
        schedule = ''Thursdays, 3:30 PM - 5:00 PM'',
        max_participants = 15,
        participants = [''amelia@mergington.edu'']\<rparr>),
     (''Chess Club'', \<lparr>
        description = ''Learn strategies and compete in chess tournaments'',
        schedule = ''Fridays, 3:30 PM - 5:00 PM'',
        max_participants = 12,
        participants = [''daniel@mergington.edu'', ''michael@mergington.edu'']\<rparr>)] \<and>
   (\<exists>acts. get_activities club_store = Inr acts \<and>
      sorted_wrt (<) (map fst acts) \<and>
      (\<forall>(k, v) \<in> set acts. sorted_wrt (<) (participants v) \<and>
         set (participants v) = {e. registered k e club_store}) \<and>
      (\<forall>row \<in> set (the (activities club_store)).
         \<exists>v. dict_get acts (name row) = Some v \<and> description v = description row \<and>
           schedule v = schedule row \<and> max_participants v = max_participants row))"
proof -
  define rows where "rows = the (activities club_store)"
  define regs where "regs = the (registrations club_store)"
  have a: "activities club_store = Some rows" by (simp add: rows_def club_store_def)
  have b: "registrations club_store = Some regs" by (simp add: regs_def club_store_def)
  have d1: "distinct (map name rows)" by (simp add: rows_def club_store_def)
  have d2: "distinct regs" by (simp add: regs_def club_store_def)
  have v: "get_activities club_store = Inr [
     (''Art Club'', \<lparr>
        description = ''Explore your creativity through painting and drawing'',
        schedule = ''Thursdays, 3:30 PM - 5:00 PM'',
        max_participants = 15,
        participants = [''amelia@mergington.edu'']\<rparr>),
     (''Chess Club'', \<lparr>
        description = ''Learn strategies and compete in chess tournaments'',
        schedule = ''Fridays, 3:30 PM - 5:00 PM'',
        max_participants = 12,
        participants = [''daniel@mergington.edu'', ''michael@mergington.edu'']\<rparr>)]"
    by code_simp
  from listing_is_ordered [OF a b] d1 d2
  have "\<exists>acts. get_activities club_store = Inr acts \<and>
      sorted_wrt (<) (map fst acts) \<and>
      (\<forall>(k, v) \<in> set acts. sorted_wrt (<) (participants v) \<and>
         set (participants v) = {e. registered k e club_store}) \<and>
      (\<forall>row \<in> set rows.
         \<exists>v. dict_get acts (name row) = Some v \<and> description v = description row \<and>
           schedule v = schedule row \<and> max_participants v = max_participants row)"
    by fast
  with v show ?thesis unfolding rows_def by (rule conjI)
qed

text \<open>
  C7. \<open>init_db\<close> on the store without tables succeeds, and the listing of the store it
  leaves is exactly the nine seeded activities, in name order, each with its seeded
  participants in ascending order; "Chess Club" has daniel and michael, in that order.
\<close>

theorem fresh_store_listing:
  "fst (init_db fresh_store) = Inr () \<and>
   get_activities (snd (init_db fresh_store)) = Inr [
    (''Art Club'', \<lparr>
      description = ''Explore your creativity through painting and drawing'',
      schedule = ''Thursdays, 3:30 PM - 5:00 PM'',
      max_participants = 15,
      participants = [''amelia@mergington.edu'', ''harper@mergington.edu'']\<rparr>),
    (''Basketball Team'', \<lparr>
      description = ''Practice and play basketball with the school team'',
      schedule = ''Wednesdays and Fridays, 3:30 PM - 5:00 PM'',
      max_participants = 15,
      participants = [''ava@mergington.edu'', ''mia@mergington.edu'']\<rparr>),
    (''Chess Club'', \<lparr>
      description = ''Learn strategies and compete in chess tournaments'',
      schedule = ''Fridays, 3:30 PM - 5:00 PM'',
      max_participants = 12,
      participants = [''daniel@mergington.edu'', ''michael@mergington.edu'']\<rparr>),
    (''Debate Team'', \<lparr>
      description = ''Develop public speaking and argumentation skills'',
      schedule = ''Fridays, 4:00 PM - 5:30 PM'',
      max_participants = 12,
      participants = [''charlotte@mergington.edu'', ''henry@mergington.edu'']\<rparr>),
    (''Drama Club'', \<lparr>
      description = ''Act, direct, and produce plays and performances'',
      schedule = ''Mondays and Wednesdays, 4:00 PM - 5:30 PM'',
      max_participants = 20,
      participants = [''ella@mergington.edu'', ''scarlett@mergington.edu'']\<rparr>),
    (''Gym Class'', \<lparr>
      description = ''Physical education and sports activities'',
      schedule = ''Mondays, Wednesdays, Fridays, 2:00 PM - 3:00 PM'',
      max_participants = 30,
      participants = [''john@mergington.edu'', ''olivia@mergington.edu'']\<rparr>),
    (''Math Club'', \<lparr>
      description = ''Solve challenging problems and participate in math competitions'',
      schedule = ''Tuesdays, 3:30 PM - 4:30 PM'',
      max_participants = 10,
      participants = [''benjamin@mergington.edu'', ''james@mergington.edu'']\<rparr>),
    (''Programming Class'', \<lparr>
      description = ''Learn programming fundamentals and build software projects'',
      schedule = ''Tuesdays and Thursdays, 3:30 PM - 4:30 PM'',
      max_participants = 20,
      participants = [''emma@mergington.edu'', ''sophia@mergington.edu'']\<rparr>),
    (''Soccer Team'', \<lparr>
      description = ''Join the school soccer team and compete in matches'',
      schedule = ''Tuesdays and Thursdays, 4:00 PM - 5:30 PM'',
      max_participants = 22,
      participants = [''liam@mergington.edu'', ''noah@mergington.edu'']\<rparr>)]"
  by code_simp

text \<open>
  C8. On a store whose table \<open>activities\<close> has at least one row, \<open>init_db\<close> succeeds
  and seeds nothing: the activity rows and the registration rows are those of before (a
  missing table \<open>registrations\<close> is created empty), and a store with both tables is left
  exactly as it was.
\<close>

theorem init_db_keeps_nonempty_store:
  assumes "activities db = Some rows" and "rows \<noteq> []"
  shows "fst (init_db db) = Inr () \<and>
         activities (snd (init_db db)) = Some rows \<and>
         registrations (snd (init_db db)) =
           Some (case registrations db of None \<Rightarrow> [] | Some regs \<Rightarrow> regs) \<and>
         (registrations db \<noteq> None \<longrightarrow> snd (init_db db) = db)"
  using assms
  by (cases "registrations db")
    (simp_all add: init_db_nonempty create_registrations_def)

theorem init_db_keeps_nonempty_store_witness:
  "init_db chess_store = (Inr (), chess_store)"
proof -
  let ?rows = "[\<lparr>description = ''Learn strategies and compete in chess tournaments'',
                          schedule = ''Fridays, 3:30 PM - 5:00 PM'',
                          max_participants = 1, name = ''Chess Club''\<rparr>]"
  have a: "activities chess_store = Some ?rows" by (simp add: chess_store_def)
  have b: "?rows \<noteq> []" by simp
  have c: "registrations chess_store \<noteq> None" by (simp add: chess_store_def)
  from init_db_keeps_nonempty_store [OF a b] c
  have "fst (init_db chess_store) = Inr () \<and> snd (init_db chess_store) = chess_store"
    by blast
  then show ?thesis by (simp add: prod_eq_iff)
qed

text \<open>
  C9. Whenever \<open>signup_for_activity\<close> or \<open>unregister_from_activity\<close> raises, with whatever
  exception, the store afterwards is the store before.
\<close>

theorem failure_leaves_store_unchanged:
  "(signup_for_activity a e db = (Inl err, db') \<longrightarrow> db' = db) \<and>
   (unregister_from_activity a e db = (Inl err, db') \<longrightarrow> db' = db)"
  using signup_failure_unchanged unregister_failure_unchanged by blast

theorem failure_leaves_store_unchanged_witness:
  "signup_for_activity ''Knitting'' ''new@mergington.edu'' chess_store =
     (Inl NotFound, chess_store) \<and>
   signup_for_activity ''Chess Club'' ''daniel@mergington.edu'' chess_store =
     (Inl Conflict, chess_store) \<and>
   unregister_from_activity ''Chess Club'' ''new@mergington.edu'' chess_store =
     (Inl InvalidOperation, chess_store)"
proof -
  let ?s1 = "signup_for_activity ''Knitting'' ''new@mergington.edu'' chess_store"
  let ?s2 = "signup_for_activity ''Chess Club'' ''daniel@mergington.edu'' chess_store"
  let ?u = "unregister_from_activity ''Chess Club'' ''new@mergington.edu'' chess_store"
  have "fst ?s1 = Inl NotFound"
    by (simp add: signup_for_activity_def with_connection_def select_activity_def
        chess_store_def NotFound_def)
  then have s1: "?s1 = (Inl NotFound, snd ?s1)" by (simp add: prod_eq_iff)
  have "fst ?s2 = Inl Conflict"
    by (simp add: signup_for_activity_def with_connection_def select_activity_def
        select_registration_def chess_store_def Conflict_def)
  then have s2: "?s2 = (Inl Conflict, snd ?s2)" by (simp add: prod_eq_iff)
  have "fst ?u = Inl InvalidOperation"
    by (simp add: unregister_from_activity_def with_connection_def select_activity_def
        delete_registration_def chess_store_def InvalidOperation_def)
  then have u: "?u = (Inl InvalidOperation, snd ?u)" by (simp add: prod_eq_iff)
  from failure_leaves_store_unchanged
    [of "''Knitting''" "''new@mergington.edu''" chess_store NotFound "snd ?s1"] s1
  have "snd ?s1 = chess_store" by blast
  moreover from failure_leaves_store_unchanged
    [of "''Chess Club''" "''daniel@mergington.edu''" chess_store Conflict "snd ?s2"] s2
  have "snd ?s2 = chess_store" by blast
  moreover from failure_leaves_store_unchanged
    [of "''Chess Club''" "''new@mergington.edu''" chess_store InvalidOperation "snd ?u"] u
  have "snd ?u = chess_store" by blast
  ultimately show ?thesis using s1 s2 u by simp
qed

text \<open>
  C10. A \<open>signup_for_activity\<close> that returns normally leaves the store of before with the
  one row (activity_name, email), which was not there, appended to table \<open>registrations\<close>;
  an \<open>unregister_from_activity\<close> that returns normally leaves the store of before with the
  rows equal to (activity_name, email) removed from table \<open>registrations\<close>, the other rows
  in their order, which is exactly one row fewer when the rows are distinct (the primary
  key). Table \<open>activities\<close> is untouched by both.
\<close>

theorem success_changes_one_registration:
  "(signup_for_activity a e db = (Inr m, db') \<longrightarrow>
      (\<exists>regs. registrations db = Some regs \<and>
         \<lparr>activity_name = a, email = e\<rparr> \<notin> set regs \<and>
         db' = db\<lparr>registrations := Some (regs @ [\<lparr>activity_name = a, email = e\<rparr>])\<rparr> \<and>
         activities db' = activities db))
 \<and> (unregister_from_activity a e db = (Inr m, db') \<longrightarrow>
      (\<exists>regs regs'. registrations db = Some regs \<and>
         \<lparr>activity_name = a, email = e\<rparr> \<in> set regs \<and>
         regs' = filter (\<lambda>r. r \<noteq> \<lparr>activity_name = a, email = e\<rparr>) regs \<and>
         db' = db\<lparr>registrations := Some regs'\<rparr> \<and>
         activities db' = activities db \<and>
         set regs' = set regs - {\<lparr>activity_name = a, email = e\<rparr>} \<and>
         (distinct regs \<longrightarrow> length regs = Suc (length regs'))))"
proof (intro conjI impI)
  let ?r = "\<lparr>activity_name = a, email = e\<rparr>"
  assume ok: "signup_for_activity a e db = (Inr m, db')"
  from signup_success_cases [OF ok] obtain rows regs where rows: "activities db = Some rows"
    and mem: "a \<in> set (map name rows)" and regs: "registrations db = Some regs"
    and notin: "?r \<notin> set regs"
    by blast
  from signup_new [OF rows mem regs notin] ok
  have "db' = db\<lparr>registrations := Some (regs @ [?r])\<rparr>" by simp
  with regs notin show "\<exists>regs. registrations db = Some regs \<and> ?r \<notin> set regs \<and>
         db' = db\<lparr>registrations := Some (regs @ [?r])\<rparr> \<and> activities db' = activities db"
    by simp
next
  let ?r = "\<lparr>activity_name = a, email = e\<rparr>"
  assume ok: "unregister_from_activity a e db = (Inr m, db')"
  from unregister_success_cases [OF ok] obtain rows regs where rows: "activities db = Some rows"
    and mem: "a \<in> set (map name rows)" and regs: "registrations db = Some regs"
    and isin: "?r \<in> set regs"
    by blast
  let ?regs' = "filter (\<lambda>r. r \<noteq> ?r) regs"
  from unregister_present [OF rows mem regs isin] ok
  have db': "db' = db\<lparr>registrations := Some ?regs'\<rparr>" by simp
  have s: "set ?regs' = set regs - {?r}" by auto
  have l: "distinct regs \<longrightarrow> length regs = Suc (length ?regs')"
  proof
    assume d: "distinct regs"
    have "length regs = length (filter (\<lambda>r. r = ?r) regs) + length ?regs'"
      using sum_length_filter_compl [of "\<lambda>r. r = ?r" regs] by simp
    moreover have "length (filter (\<lambda>r. r = ?r) regs) = 1"
      using d isin by (simp add: distinct_length_filter)
    ultimately show "length regs = Suc (length ?regs')" by simp
  qed
  from regs isin db' s l show "\<exists>regs regs'. registrations db = Some regs \<and> ?r \<in> set regs \<and>
         regs' = filter (\<lambda>r. r \<noteq> ?r) regs \<and> db' = db\<lparr>registrations := Some regs'\<rparr> \<and>
         activities db' = activities db \<and> set regs' = set regs - {?r} \<and>
         (distinct regs \<longrightarrow> length regs = Suc (length regs'))"
    by simp
qed

theorem success_changes_one_registration_witness:
  "(\<exists>m db'. signup_for_activity ''Chess Club'' ''new@mergington.edu'' chess_store =
              (Inr m, db') \<and>
      activities db' = activities chess_store \<and>
      registrations db' =
        Some [\<lparr>activity_name = ''Chess Club'', email = ''daniel@mergington.edu''\<rparr>,
              \<lparr>activity_name = ''Chess Club'', email = ''new@mergington.edu''\<rparr>])
 \<and> (\<exists>m db'. unregister_from_activity ''Chess Club'' ''daniel@mergington.edu'' chess_store =
              (Inr m, db') \<and>
      activities db' = activities chess_store \<and> registrations db' = Some [])"
proof -
  let ?regs = "[\<lparr>activity_name = ''Chess Club'', email = ''daniel@mergington.edu''\<rparr>]"
  have r: "registrations chess_store = Some ?regs" by (simp add: chess_store_def)
  have d: "distinct ?regs" by simp
  obtain m1 d1 where s: "signup_for_activity ''Chess Club'' ''new@mergington.edu'' chess_store
      = (Inr m1, d1)"
    by (simp add: signup_for_activity_def with_connection_def select_activity_def
        select_registration_def insert_registration_def chess_store_def)
  obtain m2 d2 where u: "unregister_from_activity ''Chess Club'' ''daniel@mergington.edu''
      chess_store = (Inr m2, d2)"
    by (simp add: unregister_from_activity_def with_connection_def select_activity_def
        delete_registration_def chess_store_def)
  from success_changes_one_registration
    [of "''Chess Club''" "''new@mergington.edu''" chess_store m1 d1] s r
  have 1: "activities d1 = activities chess_store \<and>
      registrations d1 = Some (?regs @ [\<lparr>activity_name = ''Chess Club'',
        email = ''new@mergington.edu''\<rparr>])"
    by auto
  from success_changes_one_registration
    [of "''Chess Club''" "''daniel@mergington.edu''" chess_store m2 d2] u r d
  have 2: "activities d2 = activities chess_store \<and> registrations d2 = Some []"
    by auto
  from 1 2 s u show ?thesis by auto
qed

section \<open>The schema constraints are kept\<close>

text \<open>
  \<open>init_db\<close> on the store without tables establishes the constraints, and \<open>init_db\<close>,
  \<open>signup_for_activity\<close> and \<open>unregister_from_activity\<close> keep them.
\<close>

lemma store_ok_fresh: "store_ok (snd (init_db fresh_store))"
  by code_simp

lemma store_ok_signup: "store_ok db \<Longrightarrow> store_ok (snd (signup_for_activity a e db))"
proof -
  assume ok: "store_ok db"
  then obtain rows regs where rows: "activities db = Some rows"
    and regs: "registrations db = Some regs"
    by (auto simp: store_ok_def split: option.splits)
  show ?thesis
  proof (cases "a \<in> set (map name rows) \<and> \<lparr>activity_name = a, email = e\<rparr> \<notin> set regs")
    case True
    with signup_new [OF rows _ regs, of a e] ok rows regs show ?thesis
      by (auto simp: store_ok_def)
  next
    case False
    obtain res db' where eq: "signup_for_activity a e db = (res, db')"
      by (cases "signup_for_activity a e db")
    show ?thesis
    proof (cases res)
      case (Inl err)
      with eq signup_failure_unchanged [of a e db err db'] ok show ?thesis by simp
    next
      case (Inr m)
      with eq signup_success_cases [of a e db m db'] False rows regs show ?thesis by auto
    qed
  qed
qed

lemma store_ok_unregister:
  "store_ok db \<Longrightarrow> store_ok (snd (unregister_from_activity a e db))"
proof -
  assume ok: "store_ok db"
  obtain res db' where eq: "unregister_from_activity a e db = (res, db')"
    by (cases "unregister_from_activity a e db")
  show ?thesis
  proof (cases res)
    case (Inl err)
    with eq unregister_failure_unchanged [of a e db err db'] ok show ?thesis by simp
  next
    case (Inr m)
    with eq unregister_success_cases [of a e db m db'] obtain rows regs
      where rows: "activities db = Some rows" and mem: "a \<in> set (map name rows)"
        and regs: "registrations db = Some regs"
        and isin: "\<lparr>activity_name = a, email = e\<rparr> \<in> set regs"
      by blast
    from unregister_present [OF rows mem regs isin] ok rows regs show ?thesis
      by (auto simp: store_ok_def)
  qed
qed

lemma store_ok_init_db: "store_ok db \<Longrightarrow> store_ok (snd (init_db db))"
proof -
  assume ok: "store_ok db"
  then obtain rows regs where rows: "activities db = Some rows"
    and regs: "registrations db = Some regs"
    by (auto simp: store_ok_def split: option.splits)
  show ?thesis
  proof (cases "rows = []")
    case False
    with init_db_nonempty [OF rows False] regs ok show ?thesis
      by (simp add: create_registrations_def)
  next
    case True
    with ok rows regs have "regs = []" by (cases regs) (auto simp: store_ok_def)
    with True rows regs have "db = \<lparr>activities = Some [], registrations = Some []\<rparr>"
      by (cases db) simp
    moreover have "store_ok (snd (init_db \<lparr>activities = Some [], registrations = Some []\<rparr>))"
      by code_simp
    ultimately show ?thesis by simp
  qed
qed

end
